theory Spec2Isabelle
  imports Main
begin

section \<open>Python values\<close>

text \<open>
  The script \<^verbatim>\<open>scripts/compare_gas_vs_analist.py\<close> works on what \<^verbatim>\<open>json.load\<close> and
  \<^verbatim>\<open>csv.DictReader\<close> hand to it: \<^verbatim>\<open>None\<close>, booleans, integers, floats, strings, lists
  and dicts with string keys. A dict is an association list in insertion order; a dict
  of the program has no key twice, and a lookup reads the first entry of a key. A float
  is carried by the text \<^verbatim>\<open>repr\<close> prints for it, which is all the script
  ever reads of a float besides its truth value. A character of a string is a code point
  below 256; text with other code points is not represented. Nor is the entry that
  \<^verbatim>\<open>csv.DictReader\<close> files under the key \<^verbatim>\<open>None\<close> for a line with more cells than
  the header: its value is a non-empty list, which is truthy, so a row that has it is
  never filtered out as empty, and such rows are outside this model.
\<close>

datatype pyval =
    PNone
  | PBool bool
  | PInt int
  | PFloat string
  | PStr string
  | PList "pyval list"
  | PDict "(string \<times> pyval) list"

datatype error = AttributeError

type_synonym pydict = "(string \<times> pyval) list"

text \<open>A normalized tuple: the pairs \<^verbatim>\<open>(out_key, value)\<close> in field-map order.\<close>

type_synonym ntuple = "(string \<times> pyval) list"

text \<open>\<^verbatim>\<open>isinstance(v, dict)\<close> and \<^verbatim>\<open>isinstance(v, list)\<close>.\<close>

fun is_dict :: "pyval \<Rightarrow> bool" where
  "is_dict (PDict d) = True"
| "is_dict v = False"

fun is_list :: "pyval \<Rightarrow> bool" where
  "is_list (PList xs) = True"
| "is_list v = False"

text \<open>\<^verbatim>\<open>row.get(key, default)\<close>.\<close>

definition dict_get :: "pydict \<Rightarrow> string \<Rightarrow> pyval \<Rightarrow> pyval" where
  "dict_get d key dflt = (case map_of d key of None \<Rightarrow> dflt | Some v \<Rightarrow> v)"

text \<open>\<^verbatim>\<open>r.values()\<close>.\<close>

definition dict_values :: "pydict \<Rightarrow> pyval list" where
  "dict_values d = map snd d"

text \<open>Python's truth value of an object, as \<^verbatim>\<open>any\<close> tests it.\<close>

fun truthy :: "pyval \<Rightarrow> bool" where
  "truthy PNone = False"
| "truthy (PBool b) = b"
| "truthy (PInt i) = (i \<noteq> 0)"
| "truthy (PFloat r) = (r \<noteq> ''0.0'' \<and> r \<noteq> ''-0.0'')"
| "truthy (PStr s) = (s \<noteq> [])"
| "truthy (PList xs) = (xs \<noteq> [])"
| "truthy (PDict d) = (d \<noteq> [])"

text \<open>\<^verbatim>\<open>any(xs)\<close>.\<close>

definition py_any :: "pyval list \<Rightarrow> bool" where
  "py_any xs = list_ex truthy xs"

subsection \<open>\<^verbatim>\<open>str\<close> and \<^verbatim>\<open>repr\<close>\<close>

definition digit_char :: "nat \<Rightarrow> char" where
  "digit_char d = char_of (48 + d)"

fun str_nat :: "nat \<Rightarrow> string" where
  "str_nat n = (if n < 10 then [digit_char n] else str_nat (n div 10) @ [digit_char (n mod 10)])"

definition str_int :: "int \<Rightarrow> string" where
  "str_int i = (if i < 0 then CHR ''-'' # str_nat (nat (- i)) else str_nat (nat i))"

definition hex_char :: "nat \<Rightarrow> char" where
  "hex_char d = (if d < 10 then char_of (48 + d) else char_of (87 + d))"

text \<open>
  \<^verbatim>\<open>repr\<close> of a string: single quotes unless the text holds a single quote and no
  double quote; the quote and the backslash are escaped, tab, newline and carriage
  return are written \<^verbatim>\<open>\t \n \r\<close>, and the code points that are not printable
  (below 32, 127 to 160, and 173) are written \<^verbatim>\<open>\xNN\<close>.
\<close>

definition repr_char :: "char \<Rightarrow> char \<Rightarrow> string" where
  "repr_char q c =
     (let n = (of_char c :: nat) in
      if c = q \<or> c = CHR 0x5C then [CHR 0x5C, c]
      else if n = 9 then [CHR 0x5C, CHR ''t'']
      else if n = 10 then [CHR 0x5C, CHR ''n'']
      else if n = 13 then [CHR 0x5C, CHR ''r'']
      else if n < 32 \<or> (127 \<le> n \<and> n \<le> 160) \<or> n = 173
        then [CHR 0x5C, CHR ''x'', hex_char (n div 16), hex_char (n mod 16)]
      else [c])"

definition repr_str :: "string \<Rightarrow> string" where
  "repr_str s =
     (let q = (if CHR 0x27 \<in> set s \<and> CHR 0x22 \<notin> set s then CHR 0x22 else CHR 0x27)
      in q # concat (map (repr_char q) s) @ [q])"

text \<open>\<^verbatim>\<open>', '.join(parts)\<close>.\<close>

fun join_comma :: "string list \<Rightarrow> string" where
  "join_comma [] = []"
| "join_comma [p] = p"
| "join_comma (p # ps) = p @ '', '' @ join_comma ps"

primrec py_repr :: "pyval \<Rightarrow> string" where
  "py_repr PNone = ''None''"
| "py_repr (PBool b) = (if b then ''True'' else ''False'')"
| "py_repr (PInt i) = str_int i"
| "py_repr (PFloat r) = r"
| "py_repr (PStr s) = repr_str s"
| "py_repr (PList xs) = ''['' @ join_comma (map py_repr xs) @ '']''"
| "py_repr (PDict d) =
     ''{'' @ join_comma (map (\<lambda>(k, r). repr_str k @ '': '' @ r) (map (map_prod id py_repr) d)) @ ''}''"

text \<open>\<^verbatim>\<open>str(v)\<close>: the text itself for a string, \<^verbatim>\<open>repr\<close> for everything else.\<close>

definition py_str :: "pyval \<Rightarrow> string" where
  "py_str v = (case v of PStr s \<Rightarrow> s | _ \<Rightarrow> py_repr v)"

subsection \<open>\<^verbatim>\<open>str.strip\<close> and \<^verbatim>\<open>str.lower\<close>\<close>

text \<open>
  The code points below 256 that \<^verbatim>\<open>str.isspace\<close> accepts: 9 to 13, 28 to 31, the
  blank, 133 and 160.
\<close>

definition is_space :: "char \<Rightarrow> bool" where
  "is_space c =
     (let n = (of_char c :: nat)
      in (9 \<le> n \<and> n \<le> 13) \<or> (28 \<le> n \<and> n \<le> 32) \<or> n = 133 \<or> n = 160)"

definition strip :: "string \<Rightarrow> string" where
  "strip s = rev (dropWhile is_space (rev (dropWhile is_space s)))"

text \<open>
  The code points below 256 that \<^verbatim>\<open>str.lower\<close> changes: the capitals 65 to 90 and
  192 to 222 without the sign 215, each moved up by 32.
\<close>

definition lower_char :: "char \<Rightarrow> char" where
  "lower_char c =
     (let n = (of_char c :: nat)
      in if (65 \<le> n \<and> n \<le> 90) \<or> (192 \<le> n \<and> n \<le> 222 \<and> n \<noteq> 215) then char_of (n + 32) else c)"

definition lower :: "string \<Rightarrow> string" where
  "lower s = map lower_char s"

section \<open>The loader\<close>

text \<open>
  \<^verbatim>\<open>load_json_first_array\<close> after \<^verbatim>\<open>json.load\<close>: the argument is the parsed document.
  \<open>array_at data key\<close> is the test of the loop,
  \<^verbatim>\<open>isinstance(data, dict) and key in data and isinstance(data[key], list)\<close>, with the
  value \<^verbatim>\<open>data[key]\<close> the loop returns when the test passes. The \<^verbatim>\<open>for\<close> loop over the
  candidate keys is \<open>first_array\<close>; it returns at the first key that passes.
\<close>

definition candidate_keys :: "string list" where
  "candidate_keys = [''data'', ''tasks'', ''sessions'', ''subjects'', ''categories'']"

definition array_at :: "pyval \<Rightarrow> string \<Rightarrow> pyval list option" where
  "array_at data key =
     (case data of
        PDict d \<Rightarrow> (case map_of d key of Some (PList xs) \<Rightarrow> Some xs | _ \<Rightarrow> None)
      | _ \<Rightarrow> None)"

fun first_array :: "pyval \<Rightarrow> string list \<Rightarrow> pyval list option" where
  "first_array data [] = None"
| "first_array data (key # keys) =
     (case array_at data key of
        Some xs \<Rightarrow> Some xs
      | None \<Rightarrow> first_array data keys)"

definition load_json_first_array :: "pyval \<Rightarrow> pyval list" where
  "load_json_first_array data =
     (case first_array data candidate_keys of
        Some xs \<Rightarrow> xs
      | None \<Rightarrow> (case data of PList xs \<Rightarrow> xs | _ \<Rightarrow> []))"

section \<open>The normalizer\<close>

definition norm_bool :: "pyval \<Rightarrow> pyval" where
  "norm_bool v =
     (case v of
        PBool b \<Rightarrow> PBool b
      | PNone \<Rightarrow> PBool False
      | _ \<Rightarrow>
          (let s = lower (strip (py_str v)) in
           if s \<in> set [''true'', ''yes'', ''1''] then PBool True
           else if s \<in> set [''false'', ''no'', ''0'', ''''] then PBool False
           else PStr s))"

definition norm_str :: "pyval \<Rightarrow> pyval" where
  "norm_str v = (case v of PNone \<Rightarrow> PStr '''' | _ \<Rightarrow> PStr (py_str v))"

section \<open>The comparator\<close>

text \<open>
  \<^verbatim>\<open>row_to_tuple\<close> is local to \<^verbatim>\<open>compare_sets\<close> and reads its \<^verbatim>\<open>ignore_fields\<close>, here
  the first argument. The field map is a dict, read by \<^verbatim>\<open>mapping.items()\<close> in insertion
  order.
\<close>

fun row_to_tuple :: "string set \<Rightarrow> pydict \<Rightarrow> (string \<times> string) list \<Rightarrow> bool \<Rightarrow> ntuple" where
  "row_to_tuple ignore_fields row [] is_csv = []"
| "row_to_tuple ignore_fields row ((out_key, src_key) # mapping) is_csv =
     (if out_key \<in> ignore_fields then row_to_tuple ignore_fields row mapping is_csv
      else
        (let val = (if is_csv then dict_get row src_key (PStr '''') else dict_get row src_key (PStr ''''))
         in (if out_key \<in> set [''active'']
             then (out_key, norm_bool val)
             else (out_key, norm_str val))
            # row_to_tuple ignore_fields row mapping is_csv))"

text \<open>\<^verbatim>\<open>set(ignore_fields or [])\<close>.\<close>

definition ignore_set :: "string list option \<Rightarrow> string set" where
  "ignore_set ignore_fields = set (case ignore_fields of None \<Rightarrow> [] | Some fs \<Rightarrow> fs)"

text \<open>
  The generator of \<^verbatim>\<open>csv_set\<close> calls \<^verbatim>\<open>r.values()\<close> on every entry: an entry that is
  not a dict has no such attribute and the call raises. The generator of \<^verbatim>\<open>gas_set\<close>
  tests \<^verbatim>\<open>isinstance(r, dict)\<close> first.
\<close>

fun csv_tuples :: "string set \<Rightarrow> (string \<times> string) list \<Rightarrow> pyval list \<Rightarrow> error + ntuple list" where
  "csv_tuples ign field_map [] = Inr []"
| "csv_tuples ign field_map (r # csv_rows) =
     (case r of
        PDict d \<Rightarrow>
          (case csv_tuples ign field_map csv_rows of
             Inl e \<Rightarrow> Inl e
           | Inr ts \<Rightarrow>
               Inr (if py_any (dict_values d) then row_to_tuple ign d field_map True # ts else ts))
      | _ \<Rightarrow> Inl AttributeError)"

fun gas_tuples :: "string set \<Rightarrow> (string \<times> string) list \<Rightarrow> pyval list \<Rightarrow> ntuple list" where
  "gas_tuples ign field_map [] = []"
| "gas_tuples ign field_map (r # gas_rows) =
     (case r of
        PDict d \<Rightarrow>
          (if py_any (dict_values d) then row_to_tuple ign d field_map False # gas_tuples ign field_map gas_rows
           else gas_tuples ign field_map gas_rows)
      | _ \<Rightarrow> gas_tuples ign field_map gas_rows)"

definition csv_set :: "string set \<Rightarrow> (string \<times> string) list \<Rightarrow> pyval list \<Rightarrow> error + ntuple set" where
  "csv_set ign field_map csv_rows =
     (case csv_tuples ign field_map csv_rows of Inl e \<Rightarrow> Inl e | Inr ts \<Rightarrow> Inr (set ts))"

definition gas_set :: "string set \<Rightarrow> (string \<times> string) list \<Rightarrow> pyval list \<Rightarrow> ntuple set" where
  "gas_set ign field_map gas_rows = set (gas_tuples ign field_map gas_rows)"

text \<open>
  The lines \<^verbatim>\<open>compare_sets\<close> appends to \<^verbatim>\<open>report_lines\<close>, each with the values its
  f-string prints:
  \<^item> \<open>Header name\<close> is \<^verbatim>\<open>== {name} ==\<close>;
  \<^item> \<open>Counts c g\<close> is \<^verbatim>\<open>CSV count: {c}, GAS count: {g}\<close>;
  \<^item> \<open>Match\<close> is \<^verbatim>\<open>MATCH: Data sets are identical (for compared fields).\<close>;
  \<^item> \<open>OnlyInCsv n sample\<close> is \<^verbatim>\<open>Only in CSV ({n}): sample -> {sample}\<close>;
  \<^item> \<open>OnlyInGas n sample\<close> is \<^verbatim>\<open>Only in GAS ({n}): sample -> {sample}\<close>;
  \<^item> \<open>Blank\<close> is the empty line.
\<close>

datatype report_line =
    Header string
  | Counts nat nat
  | Match
  | OnlyInCsv nat "ntuple list"
  | OnlyInGas nat "ntuple list"
  | Blank

text \<open>
  A Python set lists its elements in the order of its hash table, which depends on the
  elements and on the order in which they were inserted, and which the program does not
  fix. \<open>list_diff a b\<close> stands for \<^verbatim>\<open>list(set(a) - set(b))\<close>, where \<open>a\<close> and \<open>b\<close>
  are the sequences of tuples inserted into the two sets: the listing may depend on both
  sequences, not only on the elements. \<open>lists_diff list_diff a b\<close> says that it lists
  exactly the elements of the difference, each once.
\<close>

definition lists_diff :: "('a list \<Rightarrow> 'a list \<Rightarrow> 'a list) \<Rightarrow> 'a list \<Rightarrow> 'a list \<Rightarrow> bool" where
  "lists_diff list_diff a b = (set (list_diff a b) = set a - set b \<and> distinct (list_diff a b))"

text \<open>
  \<^verbatim>\<open>compare_sets\<close> takes the global \<^verbatim>\<open>report_lines\<close> as its last argument and returns
  it extended, or the exception raised before any line was appended. \<open>cts\<close> and
  \<open>gts\<close> are the tuples in the order the two generators yield them; \<open>cs\<close> and
  \<open>gs\<close> are \<^verbatim>\<open>csv_set\<close> and \<^verbatim>\<open>gas_set\<close>.
\<close>

definition compare_sets ::
  "(ntuple list \<Rightarrow> ntuple list \<Rightarrow> ntuple list) \<Rightarrow> string \<Rightarrow> pyval list \<Rightarrow> pyval list
     \<Rightarrow> (string \<times> string) list \<Rightarrow> string list option \<Rightarrow> report_line list
     \<Rightarrow> error + report_line list" where
  "compare_sets list_diff name csv_rows gas_rows field_map ignore_fields report_lines =
     (let ign = ignore_set ignore_fields in
      case csv_tuples ign field_map csv_rows of
        Inl e \<Rightarrow> Inl e
      | Inr cts \<Rightarrow>
          (let gts = gas_tuples ign field_map gas_rows;
               cs = set cts;
               gs = set gts;
               only_in_csv = cs - gs;
               only_in_gas = gs - cs
           in Inr (report_lines
                @ [Header name, Counts (card cs) (card gs)]
                @ (if only_in_csv = {} \<and> only_in_gas = {} then [Match]
                   else (if only_in_csv \<noteq> {}
                         then [OnlyInCsv (card only_in_csv) (take 3 (list_diff cts gts))] else [])
                      @ (if only_in_gas \<noteq> {}
                         then [OnlyInGas (card only_in_gas) (take 3 (list_diff gts cts))] else []))
                @ [Blank])))"

text \<open>
  A report with the sample of every \<^verbatim>\<open>Only in\<close> line left out: the header, the counts,
  the match line and the cardinality of each difference remain.
\<close>

fun drop_sample :: "report_line \<Rightarrow> report_line" where
  "drop_sample (OnlyInCsv n sample) = OnlyInCsv n []"
| "drop_sample (OnlyInGas n sample) = OnlyInGas n []"
| "drop_sample l = l"

definition without_samples :: "error + report_line list \<Rightarrow> error + report_line list" where
  "without_samples r = (case r of Inl e \<Rightarrow> Inl e | Inr ls \<Rightarrow> Inr (map drop_sample ls))"

section \<open>The four tables\<close>

definition subjects_field_map :: "(string \<times> string) list" where
  "subjects_field_map =
     [(''subject_name'', ''subject_name''), (''color'', ''color''), (''icon'', ''icon''),
      (''active'', ''active'')]"

definition categories_field_map :: "(string \<times> string) list" where
  "categories_field_map =
     [(''category_name'', ''category_name''), (''subject_name'', ''subject_name''),
      (''difficulty'', ''difficulty''), (''active'', ''active'')]"

definition study_tasks_field_map :: "(string \<times> string) list" where
  "study_tasks_field_map =
     [(''task_id'', ''task_id''), (''task_name'', ''task_name''), (''description'', ''description''),
      (''categories'', ''categories''), (''correctly_completed'', ''correctly_completed''),
      (''start_time'', ''start_time''), (''end_time'', ''end_time''), (''W szkole'', ''W szkole''),
      (''subject'', ''subject''), (''session_id'', ''session_id'')]"

definition study_sessions_field_map :: "(string \<times> string) list" where
  "study_sessions_field_map =
     [(''session_id'', ''session_id''), (''start_time'', ''start_time''), (''end_time'', ''end_time''),
      (''duration_minutes'', ''duration_minutes''), (''total_tasks'', ''total_tasks''),
      (''correct_tasks'', ''correct_tasks''), (''accuracy_percentage'', ''accuracy_percentage''),
      (''notes'', ''notes'')]"

section \<open>Example inputs\<close>

text \<open>The Subjects row of the specification's end-to-end example, as each side reads it.\<close>

definition math_csv :: pydict where
  "math_csv =
     [(''subject_name'', PStr ''Math''), (''color'', PStr ''blue''), (''icon'', PStr ''calc''),
      (''active'', PStr ''true'')]"

definition math_json :: pydict where
  "math_json =
     [(''subject_name'', PStr ''Math''), (''color'', PStr ''blue''), (''icon'', PStr ''calc''),
      (''active'', PBool True)]"

text \<open>The same CSV row with \<^verbatim>\<open>yes\<close> in the \<^verbatim>\<open>active\<close> cell.\<close>

definition math_yes :: pydict where
  "math_yes =
     [(''subject_name'', PStr ''Math''), (''color'', PStr ''blue''), (''icon'', PStr ''calc''),
      (''active'', PStr ''yes'')]"

definition math_tuple :: ntuple where
  "math_tuple =
     [(''subject_name'', PStr ''Math''), (''color'', PStr ''blue''), (''icon'', PStr ''calc''),
      (''active'', PBool True)]"

text \<open>A CSV line of empty cells, and a Subjects row with no \<^verbatim>\<open>active\<close> key.\<close>

definition blank_row :: pydict where
  "blank_row =
     [(''subject_name'', PStr []), (''color'', PStr []), (''icon'', PStr []), (''active'', PStr [])]"

definition art_row :: pydict where
  "art_row = [(''subject_name'', PStr ''Art''), (''color'', PStr ''red''), (''icon'', PStr ''pen'')]"

definition art_row_inactive :: pydict where
  "art_row_inactive =
     [(''subject_name'', PStr ''Art''), (''color'', PStr ''red''), (''icon'', PStr ''pen''),
      (''active'', PBool False)]"

text \<open>
  A listing order for the examples: the tuples of the difference in the order of their
  last insertion.
\<close>

definition list_diff_ex :: "ntuple list \<Rightarrow> ntuple list \<Rightarrow> ntuple list" where
  "list_diff_ex a b = remdups (filter (\<lambda>t. t \<notin> set b) a)"

text \<open>JSON documents: a recognized key behind a non-list \<^verbatim>\<open>data\<close>, and no recognized key.\<close>

definition doc_tasks :: pyval where
  "doc_tasks =
     PDict [(''data'', PStr ''x''), (''tasks'', PList [PInt 1]), (''sessions'', PList [PInt 2])]"

definition doc_foo :: pyval where
  "doc_foo = PDict [(''foo'', PList [PInt 1])]"

text \<open>A StudySessions CSV row, and the same row with another \<^verbatim>\<open>date\<close>.\<close>

definition session_row :: pydict where
  "session_row =
     [(''session_id'', PStr ''s1''), (''date'', PStr ''2024-01-05''), (''start_time'', PStr ''10:00''),
      (''end_time'', PStr ''11:00''), (''duration_minutes'', PStr ''60''), (''total_tasks'', PStr ''4''),
      (''correct_tasks'', PStr ''3''), (''accuracy_percentage'', PStr ''75''), (''notes'', PStr [])]"

definition session_row_redated :: pydict where
  "session_row_redated =
     [(''session_id'', PStr ''s1''), (''date'', PStr ''2024-02-06''), (''start_time'', PStr ''10:00''),
      (''end_time'', PStr ''11:00''), (''duration_minutes'', PStr ''60''), (''total_tasks'', PStr ''4''),
      (''correct_tasks'', PStr ''3''), (''accuracy_percentage'', PStr ''75''), (''notes'', PStr [])]"

section \<open>Facts about the comparison sets\<close>

text \<open>
  Both sets are the tuples of the dict rows with a truthy value; building \<^verbatim>\<open>csv_set\<close>
  raises exactly when an entry of \<^verbatim>\<open>csv_rows\<close> is not a dict. As sets, both depend on
  the rows as a set only; the sequences of tuples follow the rows.
\<close>

lemma row_to_tuple_is_csv: "row_to_tuple ign d fm True = row_to_tuple ign d fm False"
  by (induction fm) (auto simp: Let_def)

lemma csv_tuples_dicts:
  "list_all is_dict rows \<Longrightarrow>
   \<exists>ts. csv_tuples ign fm rows = Inr ts \<and>
     set ts = {row_to_tuple ign d fm True |d. PDict d \<in> set rows \<and> py_any (dict_values d)}"
proof (induction rows)
  case Nil
  then show ?case by simp
next
  case (Cons r rows)
  then obtain d where r: "r = PDict d" by (cases r) auto
  from Cons obtain ts where ts: "csv_tuples ign fm rows = Inr ts"
    "set ts = {row_to_tuple ign d fm True |d. PDict d \<in> set rows \<and> py_any (dict_values d)}"
    by auto
  show ?case using r ts by auto
qed

lemma csv_tuples_raises:
  "\<not> list_all is_dict rows \<Longrightarrow> csv_tuples ign fm rows = Inl AttributeError"
proof (induction rows)
  case Nil
  then show ?case by simp
next
  case (Cons r rows)
  show ?case
  proof (cases r)
    case (PDict d)
    with Cons show ?thesis by simp
  qed simp_all
qed

lemma csv_set_dicts:
  "list_all is_dict rows \<Longrightarrow>
   csv_set ign fm rows =
     Inr {row_to_tuple ign d fm True |d. PDict d \<in> set rows \<and> py_any (dict_values d)}"
  using csv_tuples_dicts [of rows ign fm] by (auto simp: csv_set_def)

lemma csv_set_raises:
  "\<not> list_all is_dict rows \<Longrightarrow> csv_set ign fm rows = Inl AttributeError"
  by (simp add: csv_set_def csv_tuples_raises)

lemma gas_tuples_set:
  "set (gas_tuples ign fm rows) =
     {row_to_tuple ign d fm False |d. PDict d \<in> set rows \<and> py_any (dict_values d)}"
proof (induction rows)
  case Nil
  then show ?case by simp
next
  case (Cons r rows)
  then show ?case by (cases r) auto
qed

lemma gas_set_eq:
  "gas_set ign fm rows =
     {row_to_tuple ign d fm False |d. PDict d \<in> set rows \<and> py_any (dict_values d)}"
  by (simp add: gas_set_def gas_tuples_set)

lemma csv_set_cong: "set rows = set rows' \<Longrightarrow> csv_set ign fm rows = csv_set ign fm rows'"
proof (cases "list_all is_dict rows")
  case True
  assume e: "set rows = set rows'"
  with True have "list_all is_dict rows'" by (simp add: list_all_iff)
  with True e show ?thesis by (simp add: csv_set_dicts)
next
  case False
  assume e: "set rows = set rows'"
  with False have "\<not> list_all is_dict rows'" by (simp add: list_all_iff)
  with False show ?thesis by (simp add: csv_set_raises)
qed

lemma gas_set_cong: "set rows = set rows' \<Longrightarrow> gas_set ign fm rows = gas_set ign fm rows'"
  by (simp add: gas_set_eq)

lemma set_insert_at: "r \<in> set xs \<Longrightarrow> set (take i xs @ r # drop i xs) = set xs"
proof -
  assume r: "r \<in> set xs"
  have "set (take i xs) \<union> set (drop i xs) = set xs"
    by (metis append_take_drop_id set_append)
  with r show ?thesis by auto
qed

lemma gas_tuples_append:
  "gas_tuples ign fm (xs @ ys) = gas_tuples ign fm xs @ gas_tuples ign fm ys"
proof (induction xs)
  case Nil
  then show ?case by simp
next
  case (Cons r xs)
  then show ?case by (cases r) simp_all
qed

lemma csv_tuples_append:
  "csv_tuples ign fm (xs @ ys) =
     (case csv_tuples ign fm xs of
        Inl e \<Rightarrow> Inl AttributeError
      | Inr a \<Rightarrow> (case csv_tuples ign fm ys of Inl e \<Rightarrow> Inl AttributeError | Inr b \<Rightarrow> Inr (a @ b)))"
proof (induction xs)
  case Nil
  show ?case by (cases "csv_tuples ign fm ys") (simp_all, metis error.exhaust)
next
  case (Cons r xs)
  then show ?case by (cases r) (simp_all split: sum.splits)
qed

lemma csv_tuples_append_cong:
  "csv_tuples ign fm zs = csv_tuples ign fm zs' \<Longrightarrow>
   csv_tuples ign fm (xs @ zs) = csv_tuples ign fm (xs @ zs')"
proof (induction xs)
  case Nil
  then show ?case by simp
next
  case (Cons r xs)
  then show ?case by (cases r) simp_all
qed

lemma gas_tuples_blank:
  "\<not> py_any (dict_values b) \<Longrightarrow> gas_tuples ign fm (replicate n (PDict b)) = []"
  by (induction n) simp_all

lemma csv_tuples_blank:
  "\<not> py_any (dict_values b) \<Longrightarrow> csv_tuples ign fm (replicate n (PDict b)) = Inr []"
  by (induction n) simp_all

text \<open>The sample of a difference that is listed faithfully.\<close>

lemma sample_props:
  assumes "lists_diff list_diff a b"
  shows "length (take 3 (list_diff a b)) = min 3 (card (set a - set b))"
    and "distinct (take 3 (list_diff a b))"
    and "set (take 3 (list_diff a b)) \<subseteq> set a - set b"
proof -
  from assms have s: "set (list_diff a b) = set a - set b" and d: "distinct (list_diff a b)"
    by (simp_all add: lists_diff_def)
  from d have "card (set (list_diff a b)) = length (list_diff a b)" by (rule distinct_card)
  with s show "length (take 3 (list_diff a b)) = min 3 (card (set a - set b))" by simp
  from d show "distinct (take 3 (list_diff a b))" by simp
  from s show "set (take 3 (list_diff a b)) \<subseteq> set a - set b" by (metis set_take_subset)
qed

lemma lists_diff_ex: "lists_diff list_diff_ex a b"
  by (auto simp: lists_diff_def list_diff_ex_def)

text \<open>
  Two runs whose comparison sets agree give the same report up to the samples, and
  raise together.
\<close>

lemma without_samples_cong:
  assumes c: "csv_set (ignore_set ignore_fields) field_map csv_rows
                = csv_set (ignore_set ignore_fields) field_map csv_rows'"
    and g: "gas_set (ignore_set ignore_fields) field_map gas_rows
                = gas_set (ignore_set ignore_fields) field_map gas_rows'"
  shows "without_samples (compare_sets list_diff name csv_rows gas_rows field_map ignore_fields report_lines)
       = without_samples (compare_sets list_diff name csv_rows' gas_rows' field_map ignore_fields report_lines)"
proof (cases "csv_tuples (ignore_set ignore_fields) field_map csv_rows")
  case (Inl e)
  with c obtain e' where "csv_tuples (ignore_set ignore_fields) field_map csv_rows' = Inl e'"
    by (auto simp: csv_set_def split: sum.splits)
  moreover have "e' = e" by (cases e, cases e') simp
  ultimately show ?thesis using Inl by (simp add: compare_sets_def without_samples_def)
next
  case (Inr cts)
  with c obtain cts' where cts': "csv_tuples (ignore_set ignore_fields) field_map csv_rows' = Inr cts'"
    and s: "set cts' = set cts"
    by (auto simp: csv_set_def split: sum.splits)
  from g have t: "set (gas_tuples (ignore_set ignore_fields) field_map gas_rows')
      = set (gas_tuples (ignore_set ignore_fields) field_map gas_rows)"
    by (simp add: gas_set_def)
  show ?thesis using Inr cts' s t
    by (simp add: compare_sets_def without_samples_def Let_def)
qed

section \<open>Facts about the normalizer and the tuples\<close>

lemma row_to_tuple_append:
  "row_to_tuple ign row (fm1 @ fm2) is_csv
     = row_to_tuple ign row fm1 is_csv @ row_to_tuple ign row fm2 is_csv"
  by (induction fm1) (auto simp: Let_def)

lemma norm_bool_yes: "norm_bool (PStr ''yes'') = PBool True"
  by code_simp

lemma norm_bool_empty: "norm_bool (PStr []) = PBool False"
  by code_simp

lemma norm_bool_false: "norm_bool (PStr ''false'') = PBool False"
  by code_simp

lemma norm_str_empty: "norm_str (PStr []) = PStr []"
  by (simp add: norm_str_def py_str_def)

lemma row_to_tuple_frame:
  assumes "c \<notin> snd ` set field_map" and "\<forall>k. k \<noteq> c \<longrightarrow> map_of row' k = map_of row k"
  shows "row_to_tuple ign row' field_map is_csv = row_to_tuple ign row field_map is_csv"
  using assms(1)
proof (induction field_map)
  case Nil
  then show ?case by simp
next
  case (Cons f field_map)
  obtain out_key src_key where f: "f = (out_key, src_key)" by (cases f)
  from Cons.prems f have "src_key \<noteq> c" by auto
  with assms(2) have "dict_get row' src_key (PStr []) = dict_get row src_key (PStr [])"
    by (simp add: dict_get_def)
  moreover from Cons have "row_to_tuple ign row' field_map is_csv = row_to_tuple ign row field_map is_csv"
    by simp
  ultimately show ?case using f by (simp add: Let_def)
qed

section \<open>Facts about the loader\<close>

lemma first_array_hit:
  "i < length keys \<Longrightarrow> array_at data (keys ! i) = Some xs \<Longrightarrow>
   \<forall>j<i. array_at data (keys ! j) = None \<Longrightarrow> first_array data keys = Some xs"
proof (induction keys arbitrary: i)
  case Nil
  then show ?case by simp
next
  case (Cons key keys)
  show ?case
  proof (cases i)
    case 0
    with Cons.prems show ?thesis by simp
  next
    case (Suc i')
    from Cons.prems(3) Suc have h0: "array_at data key = None" by auto
    from Cons.prems Suc have "first_array data keys = Some xs"
      by (intro Cons.IH [of i']) auto
    with h0 show ?thesis by simp
  qed
qed

lemma first_array_miss:
  "\<forall>k\<in>set keys. array_at data k = None \<Longrightarrow> first_array data keys = None"
  by (induction keys) auto

section \<open>An evaluated comparison\<close>

text \<open>The Subjects example of the specification: one CSV row, the matching JSON object.\<close>

lemma subjects_match:
  "compare_sets list_diff_ex ''Subjects'' [PDict math_csv] [PDict math_json] subjects_field_map None []
     = Inr [Header ''Subjects'', Counts 1 1, Match, Blank]"
  by code_simp

section \<open>The claims\<close>

text \<open>
  C1. When the CSV rows are dicts, so that \<^verbatim>\<open>csv_set\<close> is built, \<^verbatim>\<open>compare_sets\<close> appends
  the line with the cardinalities of both sets; it appends the \<^verbatim>\<open>MATCH\<close> line if and only
  if the two sets are equal; it appends an \<^verbatim>\<open>Only in CSV\<close> line exactly when the
  difference \<open>cs - gs\<close> is not empty, and that line carries the cardinality of the
  difference and a sample of at most 3 distinct tuples of the difference (3 of them,
  or all when there are fewer); likewise for \<^verbatim>\<open>Only in GAS\<close> and \<open>gs - cs\<close>. The order
  in which \<^verbatim>\<open>list\<close> lists a difference is the parameter \<open>list_diff\<close>, which may depend
  on the order of the rows and is assumed only to list the two differences faithfully.
\<close>

theorem compare_sets_report:
  assumes cts: "csv_tuples (ignore_set ignore_fields) field_map csv_rows = Inr cts"
    and gts: "gts = gas_tuples (ignore_set ignore_fields) field_map gas_rows"
    and cs: "cs = set cts"
    and gs: "gs = set gts"
    and lc: "lists_diff list_diff cts gts"
    and lg: "lists_diff list_diff gts cts"
  shows "csv_set (ignore_set ignore_fields) field_map csv_rows = Inr cs
       \<and> gas_set (ignore_set ignore_fields) field_map gas_rows = gs
       \<and> (\<exists>new. compare_sets list_diff name csv_rows gas_rows field_map ignore_fields report_lines
             = Inr (report_lines @ new)
           \<and> Counts (card cs) (card gs) \<in> set new
           \<and> (Match \<in> set new \<longleftrightarrow> cs = gs)
           \<and> ((\<exists>n sample. OnlyInCsv n sample \<in> set new) \<longleftrightarrow> cs - gs \<noteq> {})
           \<and> ((\<exists>n sample. OnlyInGas n sample \<in> set new) \<longleftrightarrow> gs - cs \<noteq> {})
           \<and> (\<forall>n sample. OnlyInCsv n sample \<in> set new \<longrightarrow>
                 n = card (cs - gs) \<and> length sample \<le> 3 \<and> length sample = min 3 n
                 \<and> distinct sample \<and> set sample \<subseteq> cs - gs)
           \<and> (\<forall>n sample. OnlyInGas n sample \<in> set new \<longrightarrow>
                 n = card (gs - cs) \<and> length sample \<le> 3 \<and> length sample = min 3 n
                 \<and> distinct sample \<and> set sample \<subseteq> gs - cs))"
proof -
  let ?new = "[Header name, Counts (card cs) (card gs)]
      @ (if cs - gs = {} \<and> gs - cs = {} then [Match]
         else (if cs - gs \<noteq> {} then [OnlyInCsv (card (cs - gs)) (take 3 (list_diff cts gts))] else [])
            @ (if gs - cs \<noteq> {} then [OnlyInGas (card (gs - cs)) (take 3 (list_diff gts cts))] else []))
      @ [Blank]"
  have c0: "csv_set (ignore_set ignore_fields) field_map csv_rows = Inr cs"
    using cts cs by (simp add: csv_set_def)
  have g0: "gas_set (ignore_set ignore_fields) field_map gas_rows = gs"
    using gts gs by (simp add: gas_set_def)
  have r: "compare_sets list_diff name csv_rows gas_rows field_map ignore_fields report_lines
             = Inr (report_lines @ ?new)"
    using cts gts cs gs by (simp add: compare_sets_def Let_def)
  have eq: "(cs - gs = {} \<and> gs - cs = {}) \<longleftrightarrow> cs = gs" by blast
  have 1: "Counts (card cs) (card gs) \<in> set ?new" by simp
  have 2: "Match \<in> set ?new \<longleftrightarrow> cs = gs" using eq by auto
  have 3: "(\<exists>n sample. OnlyInCsv n sample \<in> set ?new) \<longleftrightarrow> cs - gs \<noteq> {}" by auto
  have 4: "(\<exists>n sample. OnlyInGas n sample \<in> set ?new) \<longleftrightarrow> gs - cs \<noteq> {}" by auto
  have 5: "\<forall>n sample. OnlyInCsv n sample \<in> set ?new \<longrightarrow>
      n = card (cs - gs) \<and> length sample \<le> 3 \<and> length sample = min 3 n
      \<and> distinct sample \<and> set sample \<subseteq> cs - gs"
    using sample_props [OF lc] cs gs by (auto split: if_splits)
  have 6: "\<forall>n sample. OnlyInGas n sample \<in> set ?new \<longrightarrow>
      n = card (gs - cs) \<and> length sample \<le> 3 \<and> length sample = min 3 n
      \<and> distinct sample \<and> set sample \<subseteq> gs - cs"
    using sample_props [OF lg] cs gs by (auto split: if_splits)
  from r 1 2 3 4 5 6 have "\<exists>new. compare_sets list_diff name csv_rows gas_rows field_map ignore_fields report_lines
             = Inr (report_lines @ new)
           \<and> Counts (card cs) (card gs) \<in> set new
           \<and> (Match \<in> set new \<longleftrightarrow> cs = gs)
           \<and> ((\<exists>n sample. OnlyInCsv n sample \<in> set new) \<longleftrightarrow> cs - gs \<noteq> {})
           \<and> ((\<exists>n sample. OnlyInGas n sample \<in> set new) \<longleftrightarrow> gs - cs \<noteq> {})
           \<and> (\<forall>n sample. OnlyInCsv n sample \<in> set new \<longrightarrow>
                 n = card (cs - gs) \<and> length sample \<le> 3 \<and> length sample = min 3 n
                 \<and> distinct sample \<and> set sample \<subseteq> cs - gs)
           \<and> (\<forall>n sample. OnlyInGas n sample \<in> set new \<longrightarrow>
                 n = card (gs - cs) \<and> length sample \<le> 3 \<and> length sample = min 3 n
                 \<and> distinct sample \<and> set sample \<subseteq> gs - cs)"
    by blast
  with c0 g0 show ?thesis by (intro conjI)
qed

theorem compare_sets_report_witness:
  "csv_tuples (ignore_set None) subjects_field_map [PDict blank_row, PDict math_csv] = Inr [math_tuple]
   \<and> gas_tuples (ignore_set None) subjects_field_map [] = []
   \<and> lists_diff list_diff_ex [math_tuple] []
   \<and> lists_diff list_diff_ex [] [math_tuple]
   \<and> csv_set (ignore_set None) subjects_field_map [PDict blank_row, PDict math_csv] = Inr {math_tuple}
   \<and> compare_sets list_diff_ex ''Subjects'' [PDict blank_row, PDict math_csv] []
         subjects_field_map None []
       = Inr [Header ''Subjects'', Counts 1 0, OnlyInCsv 1 [math_tuple], Blank]"
proof -
  have h1: "csv_tuples (ignore_set None) subjects_field_map [PDict blank_row, PDict math_csv]
              = Inr [math_tuple]"
    by code_simp
  have h2: "[] = gas_tuples (ignore_set None) subjects_field_map []" by simp
  have h3: "{math_tuple} = set [math_tuple]" by simp
  have h4: "{} = set ([] :: ntuple list)" by simp
  have lc: "lists_diff list_diff_ex [math_tuple] []" by (rule lists_diff_ex)
  have lg: "lists_diff list_diff_ex [] [math_tuple]" by (rule lists_diff_ex)
  note t = compare_sets_report [OF h1 h2 h3 h4 lc lg, of "''Subjects''" "[]"]
  from t have c: "csv_set (ignore_set None) subjects_field_map [PDict blank_row, PDict math_csv]
      = Inr {math_tuple}"
    by (rule conjunct1)
  have r: "compare_sets list_diff_ex ''Subjects'' [PDict blank_row, PDict math_csv] []
         subjects_field_map None []
       = Inr [Header ''Subjects'', Counts 1 0, OnlyInCsv 1 [math_tuple], Blank]"
    by code_simp
  show ?thesis by (rule conjI h1 h2 [symmetric] lc lg c r)+
qed

text \<open>
  C2 (the unrecognized case). For a text that is none of the recognized words,
  \<^verbatim>\<open>norm_bool\<close> returns \<^verbatim>\<open>s\<close>, the stripped and lower-cased text, not the text it
  was given: \<^verbatim>\<open>"Maybe"\<close> comes back as \<^verbatim>\<open>"maybe"\<close>, although the comment on that line
  reads \<^verbatim>\<open>return original if unknown\<close>.
\<close>

theorem norm_bool_unknown_lowered:
  "norm_bool (PStr ''Maybe'') = PStr ''maybe'' \<and> norm_bool (PStr ''Maybe'') \<noteq> PStr ''Maybe''"
  by code_simp

text \<open>
  C3. The loader returns the list under the first candidate key, in the order
  \<^verbatim>\<open>data, tasks, sessions, subjects, categories\<close>, that the root dict maps to a list;
  when no candidate key passes, it returns the root if the root is a list and the empty
  list otherwise.
\<close>

theorem load_json_first_array_spec:
  "candidate_keys = [''data'', ''tasks'', ''sessions'', ''subjects'', ''categories'']
   \<and> (\<forall>i xs. i < length candidate_keys \<and> array_at data (candidate_keys ! i) = Some xs
          \<and> (\<forall>j<i. array_at data (candidate_keys ! j) = None)
        \<longrightarrow> load_json_first_array data = xs)
   \<and> ((\<forall>k\<in>set candidate_keys. array_at data k = None)
        \<longrightarrow> load_json_first_array data = (case data of PList xs \<Rightarrow> xs | _ \<Rightarrow> []))"
proof (intro conjI allI impI)
  show "candidate_keys = [''data'', ''tasks'', ''sessions'', ''subjects'', ''categories'']"
    by (simp add: candidate_keys_def)
next
  fix i xs
  assume "i < length candidate_keys \<and> array_at data (candidate_keys ! i) = Some xs
          \<and> (\<forall>j<i. array_at data (candidate_keys ! j) = None)"
  then have "first_array data candidate_keys = Some xs"
    using first_array_hit [of i candidate_keys data xs] by blast
  then show "load_json_first_array data = xs"
    by (simp add: load_json_first_array_def)
next
  assume "\<forall>k\<in>set candidate_keys. array_at data k = None"
  then have "first_array data candidate_keys = None" by (rule first_array_miss)
  then show "load_json_first_array data = (case data of PList xs \<Rightarrow> xs | _ \<Rightarrow> [])"
    by (simp add: load_json_first_array_def)
qed


theorem load_json_first_array_spec_witness:
  "array_at doc_tasks (candidate_keys ! 0) = None
   \<and> array_at doc_tasks (candidate_keys ! 1) = Some [PInt 1]
   \<and> load_json_first_array doc_tasks = [PInt 1]
   \<and> list_all (\<lambda>k. array_at doc_foo k = None) candidate_keys
   \<and> load_json_first_array doc_foo = []
   \<and> list_all (\<lambda>k. array_at (PList [PInt 7]) k = None) candidate_keys
   \<and> load_json_first_array (PList [PInt 7]) = [PInt 7]"
proof -
  have a0: "array_at doc_tasks (candidate_keys ! 0) = None" by code_simp
  have a1: "array_at doc_tasks (candidate_keys ! 1) = Some [PInt 1]" by code_simp
  have l1: "(1::nat) < length candidate_keys" by (simp add: candidate_keys_def)
  have b: "list_all (\<lambda>k. array_at doc_foo k = None) candidate_keys" by code_simp
  have c: "list_all (\<lambda>k. array_at (PList [PInt 7]) k = None) candidate_keys" by code_simp
  from load_json_first_array_spec [of doc_tasks] a0 a1 l1
  have r1: "load_json_first_array doc_tasks = [PInt 1]" by auto
  from load_json_first_array_spec [of doc_foo] b
  have r2: "load_json_first_array doc_foo = []" by (simp add: list_all_iff doc_foo_def)
  from load_json_first_array_spec [of "PList [PInt 7]"] c
  have r3: "load_json_first_array (PList [PInt 7]) = [PInt 7]" by (simp add: list_all_iff)
  from a0 a1 b c r1 r2 r3 show ?thesis by blast
qed

text \<open>
  C4. A row all of whose values are falsy contributes no tuple on either side, and any
  number of copies of it, inserted anywhere in either input, leaves both comparison sets
  and the whole result of \<^verbatim>\<open>compare_sets\<close> (counts, differences, samples, match or
  mismatch, or the exception) unchanged.
\<close>

theorem blank_rows_ignored:
  assumes blank: "\<forall>v\<in>set (dict_values b). \<not> truthy v"
  shows "csv_set ign field_map [PDict b] = Inr {}
       \<and> gas_set ign field_map [PDict b] = {}
       \<and> csv_set ign field_map (xs @ replicate n (PDict b) @ ys) = csv_set ign field_map (xs @ ys)
       \<and> gas_set ign field_map (us @ replicate m (PDict b) @ vs) = gas_set ign field_map (us @ vs)
       \<and> compare_sets list_diff name (xs @ replicate n (PDict b) @ ys) (us @ replicate m (PDict b) @ vs)
            field_map ignore_fields report_lines
          = compare_sets list_diff name (xs @ ys) (us @ vs) field_map ignore_fields report_lines"
proof -
  from blank have nb: "\<not> py_any (dict_values b)"
    by (simp add: py_any_def list_ex_iff)
  have one_c: "csv_set ign field_map [PDict b] = Inr {}" for ign
    using nb by (simp add: csv_set_def)
  have one_g: "gas_set ign field_map [PDict b] = {}" for ign
    using nb by (simp add: gas_set_def)
  have gt: "gas_tuples ign field_map (us @ replicate m (PDict b) @ vs) = gas_tuples ign field_map (us @ vs)"
    for ign
    using nb by (simp add: gas_tuples_append gas_tuples_blank)
  have ct: "csv_tuples ign field_map (xs @ replicate n (PDict b) @ ys) = csv_tuples ign field_map (xs @ ys)"
    for ign
    using nb by (simp add: csv_tuples_append csv_tuples_blank split: sum.splits)
  have c: "csv_set ign field_map (xs @ replicate n (PDict b) @ ys) = csv_set ign field_map (xs @ ys)"
    for ign
    by (simp only: csv_set_def ct)
  have g: "gas_set ign field_map (us @ replicate m (PDict b) @ vs) = gas_set ign field_map (us @ vs)"
    for ign
    by (simp only: gas_set_def gt)
  have r: "compare_sets list_diff name (xs @ replicate n (PDict b) @ ys) (us @ replicate m (PDict b) @ vs)
            field_map ignore_fields report_lines
          = compare_sets list_diff name (xs @ ys) (us @ vs) field_map ignore_fields report_lines"
    by (simp only: compare_sets_def ct gt)
  show ?thesis by (rule conjI one_c one_g c g r)+
qed

theorem blank_rows_ignored_witness:
  "list_all (\<lambda>v. \<not> truthy v) (dict_values blank_row)
   \<and> csv_set {} subjects_field_map [PDict blank_row] = Inr {}
   \<and> gas_set {} subjects_field_map [PDict blank_row] = {}
   \<and> compare_sets list_diff_ex ''Subjects'' ([PDict math_csv] @ replicate 2 (PDict blank_row) @ [])
         ([] @ replicate 1 (PDict blank_row) @ [PDict math_json]) subjects_field_map None []
       = Inr [Header ''Subjects'', Counts 1 1, Match, Blank]"
proof -
  have h: "\<forall>v\<in>set (dict_values blank_row). \<not> truthy v"
    by (simp add: blank_row_def dict_values_def)
  then have h': "list_all (\<lambda>v. \<not> truthy v) (dict_values blank_row)"
    by (simp add: list_all_iff)
  note t = blank_rows_ignored [OF h, where ign = "{}" and field_map = subjects_field_map
      and xs = "[PDict math_csv]" and n = 2 and ys = "[]" and us = "[]" and m = 1
      and vs = "[PDict math_json]" and list_diff = list_diff_ex and name = "''Subjects''"
      and ignore_fields = None and report_lines = "[]"]
  from t have 1: "csv_set {} subjects_field_map [PDict blank_row] = Inr {}" by (rule conjunct1)
  from t have 2: "gas_set {} subjects_field_map [PDict blank_row] = {}" by (elim conjE)
  from t have "compare_sets list_diff_ex ''Subjects'' ([PDict math_csv] @ replicate 2 (PDict blank_row) @ [])
         ([] @ replicate 1 (PDict blank_row) @ [PDict math_json]) subjects_field_map None []
       = compare_sets list_diff_ex ''Subjects'' ([PDict math_csv] @ []) ([] @ [PDict math_json])
           subjects_field_map None []"
    by (elim conjE)
  then have 3: "compare_sets list_diff_ex ''Subjects'' ([PDict math_csv] @ replicate 2 (PDict blank_row) @ [])
         ([] @ replicate 1 (PDict blank_row) @ [PDict math_json]) subjects_field_map None []
       = Inr [Header ''Subjects'', Counts 1 1, Match, Blank]"
    using subjects_match by simp
  show ?thesis by (rule conjI h' 1 2 3)+
qed

text \<open>
  C5. \<^verbatim>\<open>norm_bool("yes")\<close> and \<^verbatim>\<open>norm_bool(True)\<close> are the same value, and \<^verbatim>\<open>active\<close> is
  the only field normalized with \<^verbatim>\<open>norm_bool\<close>: if every field mapped to \<^verbatim>\<open>active\<close>
  holds \<^verbatim>\<open>"yes"\<close> in the CSV row and \<^verbatim>\<open>True\<close> in the JSON row, and every other mapped field
  stringifies identically under \<^verbatim>\<open>norm_str\<close> in the two rows, then the two rows
  normalize to equal tuples.
\<close>

theorem yes_true_equal_tuples:
  assumes active: "\<forall>(out_key, src_key)\<in>set field_map. out_key = ''active'' \<longrightarrow>
      map_of csv_row src_key = Some (PStr ''yes'') \<and> map_of gas_row src_key = Some (PBool True)"
    and others: "\<forall>(out_key, src_key)\<in>set field_map. out_key \<noteq> ''active'' \<longrightarrow>
      norm_str (dict_get csv_row src_key (PStr [])) = norm_str (dict_get gas_row src_key (PStr []))"
  shows "norm_bool (PStr ''yes'') = norm_bool (PBool True)
       \<and> row_to_tuple ign csv_row field_map True = row_to_tuple ign gas_row field_map False"
proof -
  have nb: "norm_bool (PStr ''yes'') = norm_bool (PBool True)"
    by (simp add: norm_bool_yes) (simp add: norm_bool_def)
  have "row_to_tuple ign csv_row field_map True = row_to_tuple ign gas_row field_map False"
    using active others
  proof (induction field_map)
    case Nil
    then show ?case by simp
  next
    case (Cons f field_map)
    obtain out_key src_key where f: "f = (out_key, src_key)" by (cases f)
    from Cons.prems have IH: "row_to_tuple ign csv_row field_map True = row_to_tuple ign gas_row field_map False"
      by (intro Cons.IH) auto
    show ?case
    proof (cases "out_key = ''active''")
      case True
      with Cons.prems(1) f have "dict_get csv_row src_key (PStr []) = PStr ''yes''"
        and "dict_get gas_row src_key (PStr []) = PBool True"
        by (auto simp: dict_get_def)
      with True f IH nb show ?thesis by (simp add: Let_def)
    next
      case False
      with Cons.prems(2) f
      have "norm_str (dict_get csv_row src_key (PStr [])) = norm_str (dict_get gas_row src_key (PStr []))"
        by auto
      with False f IH show ?thesis by (simp add: Let_def)
    qed
  qed
  with nb show ?thesis by blast
qed

theorem yes_true_equal_tuples_witness:
  "map_of math_yes ''active'' = Some (PStr ''yes'')
   \<and> map_of math_json ''active'' = Some (PBool True)
   \<and> row_to_tuple {} math_yes subjects_field_map True = row_to_tuple {} math_json subjects_field_map False
   \<and> row_to_tuple {} math_json subjects_field_map False = math_tuple"
proof -
  have a: "map_of math_yes ''active'' = Some (PStr ''yes'')" by (simp add: math_yes_def)
  have b: "map_of math_json ''active'' = Some (PBool True)" by (simp add: math_json_def)
  have h1: "\<forall>(out_key, src_key)\<in>set subjects_field_map. out_key = ''active'' \<longrightarrow>
      map_of math_yes src_key = Some (PStr ''yes'') \<and> map_of math_json src_key = Some (PBool True)"
    by (simp add: subjects_field_map_def math_yes_def math_json_def)
  have h2: "\<forall>(out_key, src_key)\<in>set subjects_field_map. out_key \<noteq> ''active'' \<longrightarrow>
      norm_str (dict_get math_yes src_key (PStr [])) = norm_str (dict_get math_json src_key (PStr []))"
    by (simp add: subjects_field_map_def math_yes_def math_json_def dict_get_def)
  from yes_true_equal_tuples [OF h1 h2, of "{}"]
  have c: "row_to_tuple {} math_yes subjects_field_map True = row_to_tuple {} math_json subjects_field_map False"
    by (rule conjunct2)
  have d: "row_to_tuple {} math_json subjects_field_map False = math_tuple" by code_simp
  show ?thesis by (rule conjI a b c d)+
qed

text \<open>
  C6. Inserting a copy of a row that is already present, at any position, on the CSV
  side, on the JSON side or on both, leaves the comparison sets unchanged, and with them
  what \<^verbatim>\<open>compare_sets\<close> reports of them: the cardinalities of the sets and of the
  differences, which difference lines appear, and the match status (the report with the
  samples left out, since the order in which a sample lists a difference may follow the
  order of the rows).
\<close>

theorem duplicate_rows_collapse:
  "(r \<in> set csv_rows \<longrightarrow>
      csv_set ign field_map (take i csv_rows @ r # drop i csv_rows) = csv_set ign field_map csv_rows
    \<and> without_samples (compare_sets list_diff name (take i csv_rows @ r # drop i csv_rows) gas_rows
          field_map ignore_fields report_lines)
      = without_samples (compare_sets list_diff name csv_rows gas_rows field_map ignore_fields
          report_lines))
   \<and> (g \<in> set gas_rows \<longrightarrow>
      gas_set ign field_map (take j gas_rows @ g # drop j gas_rows) = gas_set ign field_map gas_rows
    \<and> without_samples (compare_sets list_diff name csv_rows (take j gas_rows @ g # drop j gas_rows)
          field_map ignore_fields report_lines)
      = without_samples (compare_sets list_diff name csv_rows gas_rows field_map ignore_fields
          report_lines))
   \<and> (r \<in> set csv_rows \<and> g \<in> set gas_rows \<longrightarrow>
      without_samples (compare_sets list_diff name (take i csv_rows @ r # drop i csv_rows)
          (take j gas_rows @ g # drop j gas_rows) field_map ignore_fields report_lines)
      = without_samples (compare_sets list_diff name csv_rows gas_rows field_map ignore_fields
          report_lines))"
proof -
  have c: "csv_set ign field_map (take i csv_rows @ r # drop i csv_rows) = csv_set ign field_map csv_rows"
    if "r \<in> set csv_rows" for ign
    using set_insert_at [OF that] by (rule csv_set_cong)
  have g: "gas_set ign field_map (take j gas_rows @ g # drop j gas_rows) = gas_set ign field_map gas_rows"
    if "g \<in> set gas_rows" for ign
    using set_insert_at [OF that] by (rule gas_set_cong)
  have 1: "without_samples (compare_sets list_diff name (take i csv_rows @ r # drop i csv_rows) gas_rows
          field_map ignore_fields report_lines)
      = without_samples (compare_sets list_diff name csv_rows gas_rows field_map ignore_fields
          report_lines)"
    if "r \<in> set csv_rows"
    using c [OF that] refl by (rule without_samples_cong)
  have 2: "without_samples (compare_sets list_diff name csv_rows (take j gas_rows @ g # drop j gas_rows)
          field_map ignore_fields report_lines)
      = without_samples (compare_sets list_diff name csv_rows gas_rows field_map ignore_fields
          report_lines)"
    if "g \<in> set gas_rows"
    using refl g [OF that] by (rule without_samples_cong)
  have 3: "without_samples (compare_sets list_diff name (take i csv_rows @ r # drop i csv_rows)
          (take j gas_rows @ g # drop j gas_rows) field_map ignore_fields report_lines)
      = without_samples (compare_sets list_diff name csv_rows gas_rows field_map ignore_fields
          report_lines)"
    if "r \<in> set csv_rows \<and> g \<in> set gas_rows"
    using c [of "ignore_set ignore_fields"] g [of "ignore_set ignore_fields"] that
    by (intro without_samples_cong) simp_all
  from c g 1 2 3 show ?thesis by (intro conjI impI) simp_all
qed

theorem duplicate_rows_collapse_witness:
  "PDict math_csv \<in> set [PDict math_csv]
   \<and> csv_set {} subjects_field_map (take 0 [PDict math_csv] @ PDict math_csv # drop 0 [PDict math_csv])
       = csv_set {} subjects_field_map [PDict math_csv]
   \<and> without_samples (compare_sets list_diff_ex ''Subjects''
         (take 0 [PDict math_csv] @ PDict math_csv # drop 0 [PDict math_csv]) []
         subjects_field_map None [])
       = Inr [Header ''Subjects'', Counts 1 0, OnlyInCsv 1 [], Blank]
   \<and> PDict math_json \<in> set [PDict math_json]
   \<and> without_samples (compare_sets list_diff_ex ''Subjects'' [PDict math_csv]
         (take 1 [PDict math_json] @ PDict math_json # drop 1 [PDict math_json])
         subjects_field_map None [])
       = Inr [Header ''Subjects'', Counts 1 1, Match, Blank]"
proof -
  have a: "PDict math_csv \<in> set [PDict math_csv]" by simp
  have b: "PDict math_json \<in> set [PDict math_json]" by simp
  have e1: "without_samples (compare_sets list_diff_ex ''Subjects'' [PDict math_csv] []
         subjects_field_map None [])
       = Inr [Header ''Subjects'', Counts 1 0, OnlyInCsv 1 [], Blank]"
    by code_simp
  have e2: "without_samples (compare_sets list_diff_ex ''Subjects'' [PDict math_csv] [PDict math_json]
         subjects_field_map None [])
       = Inr [Header ''Subjects'', Counts 1 1, Match, Blank]"
    by (simp add: subjects_match without_samples_def)
  note t1 = duplicate_rows_collapse [where r = "PDict math_csv" and csv_rows = "[PDict math_csv]"
      and i = 0 and gas_rows = "[]" and field_map = subjects_field_map and ign = "{}"
      and list_diff = list_diff_ex and name = "''Subjects''" and ignore_fields = None
      and report_lines = "[]", THEN conjunct1, rule_format, OF a]
  note t2 = duplicate_rows_collapse [where g = "PDict math_json" and gas_rows = "[PDict math_json]"
      and j = 1 and csv_rows = "[PDict math_csv]" and field_map = subjects_field_map and ign = "{}"
      and list_diff = list_diff_ex and name = "''Subjects''" and ignore_fields = None
      and report_lines = "[]", THEN conjunct2, THEN conjunct1, rule_format, OF b]
  from t1 have 1: "csv_set {} subjects_field_map
        (take 0 [PDict math_csv] @ PDict math_csv # drop 0 [PDict math_csv])
       = csv_set {} subjects_field_map [PDict math_csv]"
    by (rule conjunct1)
  from t1 e1 have 2: "without_samples (compare_sets list_diff_ex ''Subjects''
         (take 0 [PDict math_csv] @ PDict math_csv # drop 0 [PDict math_csv]) []
         subjects_field_map None [])
       = Inr [Header ''Subjects'', Counts 1 0, OnlyInCsv 1 [], Blank]"
    by (simp only:)
  from t2 e2 have 3: "without_samples (compare_sets list_diff_ex ''Subjects'' [PDict math_csv]
         (take 1 [PDict math_json] @ PDict math_json # drop 1 [PDict math_json])
         subjects_field_map None [])
       = Inr [Header ''Subjects'', Counts 1 1, Match, Blank]"
    by (simp only:)
  show ?thesis by (rule conjI a 1 2 b 3)+
qed

text \<open>
  C7. If two rows agree on every key but \<open>c\<close>, and \<open>c\<close> is not a source key of the
  field map, they have the same normalized tuple; if moreover both rows have a truthy
  value, exchanging one for the other in the CSV rows changes neither the comparison set
  nor the result of \<^verbatim>\<open>compare_sets\<close>. The \<^verbatim>\<open>date\<close> column is no source key of the
  StudySessions field map.
\<close>

theorem unmapped_column_ignored:
  assumes "c \<notin> snd ` set field_map" and "\<forall>k. k \<noteq> c \<longrightarrow> map_of row' k = map_of row k"
  shows "row_to_tuple ign row' field_map is_csv = row_to_tuple ign row field_map is_csv
       \<and> (py_any (dict_values row) \<and> py_any (dict_values row') \<longrightarrow>
            csv_set ign field_map (xs @ PDict row' # ys) = csv_set ign field_map (xs @ PDict row # ys)
          \<and> compare_sets list_diff name (xs @ PDict row' # ys) gas_rows field_map ignore_fields report_lines
            = compare_sets list_diff name (xs @ PDict row # ys) gas_rows field_map ignore_fields report_lines)
       \<and> ''date'' \<notin> snd ` set study_sessions_field_map"
proof -
  have t: "row_to_tuple ign row' field_map is_csv = row_to_tuple ign row field_map is_csv"
    for ign is_csv
    using assms by (rule row_to_tuple_frame)
  have ct: "csv_tuples ign field_map (xs @ PDict row' # ys) = csv_tuples ign field_map (xs @ PDict row # ys)"
    if "py_any (dict_values row) \<and> py_any (dict_values row')" for ign
  proof (rule csv_tuples_append_cong)
    from that show "csv_tuples ign field_map (PDict row' # ys) = csv_tuples ign field_map (PDict row # ys)"
      by (simp add: t split: sum.splits)
  qed
  have c: "csv_set ign field_map (xs @ PDict row' # ys) = csv_set ign field_map (xs @ PDict row # ys)"
    if "py_any (dict_values row) \<and> py_any (dict_values row')" for ign
    using ct [OF that] by (simp only: csv_set_def)
  have r: "compare_sets list_diff name (xs @ PDict row' # ys) gas_rows field_map ignore_fields report_lines
            = compare_sets list_diff name (xs @ PDict row # ys) gas_rows field_map ignore_fields report_lines"
    if "py_any (dict_values row) \<and> py_any (dict_values row')"
    using ct [OF that] by (simp only: compare_sets_def)
  have d: "''date'' \<notin> snd ` set study_sessions_field_map"
    by (simp add: study_sessions_field_map_def)
  from t c r d show ?thesis by blast
qed

theorem unmapped_column_ignored_witness:
  "''date'' \<notin> snd ` set study_sessions_field_map
   \<and> map_of session_row_redated ''date'' \<noteq> map_of session_row ''date''
   \<and> py_any (dict_values session_row) \<and> py_any (dict_values session_row_redated)
   \<and> row_to_tuple {} session_row_redated study_sessions_field_map True
       = row_to_tuple {} session_row study_sessions_field_map True
   \<and> csv_set {} study_sessions_field_map ([] @ PDict session_row_redated # [])
       = csv_set {} study_sessions_field_map ([] @ PDict session_row # [])"
proof -
  have a: "''date'' \<notin> snd ` set study_sessions_field_map"
    by (simp add: study_sessions_field_map_def)
  have b: "\<forall>k. k \<noteq> ''date'' \<longrightarrow> map_of session_row_redated k = map_of session_row k"
    by (simp add: session_row_def session_row_redated_def)
  have c: "map_of session_row_redated ''date'' \<noteq> map_of session_row ''date''"
    by (simp add: session_row_def session_row_redated_def)
  have p: "py_any (dict_values session_row)" by code_simp
  have q: "py_any (dict_values session_row_redated)" by code_simp
  note t = unmapped_column_ignored [OF a b, where ign = "{}" and is_csv = True and xs = "[]"
      and ys = "[]"]
  from t have 1: "row_to_tuple {} session_row_redated study_sessions_field_map True
       = row_to_tuple {} session_row study_sessions_field_map True"
    by (rule conjunct1)
  from t p q have 2: "csv_set {} study_sessions_field_map ([] @ PDict session_row_redated # [])
       = csv_set {} study_sessions_field_map ([] @ PDict session_row # [])"
    by simp
  show ?thesis by (rule conjI a c p q 1 2)+
qed

text \<open>
  C8. For a parsed document that is not a list and has no candidate key with a list
  value, the loader returns the empty list (it has no failing branch); the JSON-side set
  is then empty, and \<^verbatim>\<open>compare_sets\<close> on CSV rows that are dicts reports the CSV set
  against a count of 0 instead of raising.
\<close>

theorem unrecognized_json_yields_empty:
  assumes "\<not> is_list data" and "\<forall>k\<in>set candidate_keys. array_at data k = None"
  shows "load_json_first_array data = []
       \<and> gas_set ign field_map (load_json_first_array data) = {}
       \<and> (\<forall>cts. csv_tuples (ignore_set ignore_fields) field_map csv_rows = Inr cts \<longrightarrow>
            compare_sets list_diff name csv_rows (load_json_first_array data) field_map ignore_fields
              report_lines
            = Inr (report_lines @ [Header name, Counts (card (set cts)) 0]
                   @ (if set cts = {} then [Match]
                      else [OnlyInCsv (card (set cts)) (take 3 (list_diff cts []))])
                   @ [Blank]))
       \<and> (\<forall>cs. csv_set (ignore_set ignore_fields) field_map csv_rows = Inr cs \<longrightarrow>
            (\<exists>sample.
              compare_sets list_diff name csv_rows (load_json_first_array data) field_map ignore_fields
                report_lines
              = Inr (report_lines @ [Header name, Counts (card cs) 0]
                     @ (if cs = {} then [Match] else [OnlyInCsv (card cs) sample])
                     @ [Blank])))"
proof -
  from assms(2) have "first_array data candidate_keys = None" by (rule first_array_miss)
  with assms(1) have l: "load_json_first_array data = []"
    by (cases data) (simp_all add: load_json_first_array_def)
  have g: "gas_set ign field_map [] = {}" for ign by (simp add: gas_set_def)
  have r: "compare_sets list_diff name csv_rows [] field_map ignore_fields report_lines
            = Inr (report_lines @ [Header name, Counts (card (set cts)) 0]
                   @ (if set cts = {} then [Match]
                      else [OnlyInCsv (card (set cts)) (take 3 (list_diff cts []))])
                   @ [Blank])"
    if "csv_tuples (ignore_set ignore_fields) field_map csv_rows = Inr cts" for cts
    using that by (simp add: compare_sets_def Let_def)
  have s: "\<exists>sample. compare_sets list_diff name csv_rows [] field_map ignore_fields report_lines
              = Inr (report_lines @ [Header name, Counts (card cs) 0]
                     @ (if cs = {} then [Match] else [OnlyInCsv (card cs) sample])
                     @ [Blank])"
    if "csv_set (ignore_set ignore_fields) field_map csv_rows = Inr cs" for cs
  proof -
    from that obtain cts where cts: "csv_tuples (ignore_set ignore_fields) field_map csv_rows = Inr cts"
      and cs: "cs = set cts"
      by (auto simp: csv_set_def split: sum.splits)
    from r [OF cts] cs show ?thesis by blast
  qed
  from l g r s show ?thesis by simp
qed

theorem unrecognized_json_yields_empty_witness:
  "\<not> is_list doc_foo
   \<and> list_all (\<lambda>k. array_at doc_foo k = None) candidate_keys
   \<and> load_json_first_array doc_foo = []
   \<and> csv_tuples (ignore_set None) subjects_field_map [PDict math_csv] = Inr [math_tuple]
   \<and> compare_sets list_diff_ex ''Subjects'' [PDict math_csv] (load_json_first_array doc_foo)
         subjects_field_map None []
       = Inr [Header ''Subjects'', Counts 1 0, OnlyInCsv 1 [math_tuple], Blank]"
proof -
  have a: "\<not> is_list doc_foo" by (simp add: doc_foo_def)
  have b': "list_all (\<lambda>k. array_at doc_foo k = None) candidate_keys" by code_simp
  then have b: "\<forall>k\<in>set candidate_keys. array_at doc_foo k = None" by (simp add: list_all_iff)
  have c: "csv_tuples (ignore_set None) subjects_field_map [PDict math_csv] = Inr [math_tuple]"
    by code_simp
  note t = unrecognized_json_yields_empty [OF a b, where ign = "{}" and field_map = subjects_field_map
      and ignore_fields = None and csv_rows = "[PDict math_csv]" and list_diff = list_diff_ex
      and name = "''Subjects''" and report_lines = "[]"]
  from t have 1: "load_json_first_array doc_foo = []" by (rule conjunct1)
  from t c have "compare_sets list_diff_ex ''Subjects'' [PDict math_csv] (load_json_first_array doc_foo)
         subjects_field_map None []
       = Inr ([] @ [Header ''Subjects'', Counts (card (set [math_tuple])) 0]
                   @ (if set [math_tuple] = {} then [Match]
                      else [OnlyInCsv (card (set [math_tuple])) (take 3 (list_diff_ex [math_tuple] []))])
                   @ [Blank])"
    by blast
  then have 2: "compare_sets list_diff_ex ''Subjects'' [PDict math_csv] (load_json_first_array doc_foo)
         subjects_field_map None []
       = Inr [Header ''Subjects'', Counts 1 0, OnlyInCsv 1 [math_tuple], Blank]"
    by (simp add: list_diff_ex_def)
  show ?thesis by (rule conjI a b' 1 c 2)+
qed

text \<open>
  C9. When the source key of a field that is not ignored is absent from the row, the
  entry of that field in the tuple is the empty string, and \<^verbatim>\<open>False\<close> when the field is
  \<^verbatim>\<open>active\<close>; a row that lacks \<^verbatim>\<open>active\<close> and a row whose \<^verbatim>\<open>active\<close> is \<^verbatim>\<open>False\<close> (or the
  text \<^verbatim>\<open>false\<close>) give the same entry for that field.
\<close>

theorem missing_key_default:
  assumes "map_of row src_key = None" and "out_key \<notin> ign"
  shows "row_to_tuple ign row (pre @ (out_key, src_key) # post) is_csv
           = row_to_tuple ign row pre is_csv
             @ (out_key, if out_key = ''active'' then PBool False else PStr []) # row_to_tuple ign row post is_csv
       \<and> (\<forall>other. out_key = ''active''
              \<and> (map_of other src_key = Some (PBool False) \<or> map_of other src_key = Some (PStr ''false''))
            \<longrightarrow> row_to_tuple ign other [(out_key, src_key)] is_csv
                = row_to_tuple ign row [(out_key, src_key)] is_csv)"
proof -
  from assms(1) have g: "dict_get row src_key (PStr []) = PStr []"
    by (simp add: dict_get_def)
  have one: "row_to_tuple ign row [(out_key, src_key)] is_csv
               = [(out_key, if out_key = ''active'' then PBool False else PStr [])]"
    using assms(2) g by (simp add: norm_bool_empty norm_str_empty)
  have "row_to_tuple ign row (pre @ (out_key, src_key) # post) is_csv
          = row_to_tuple ign row pre is_csv @ row_to_tuple ign row [(out_key, src_key)] is_csv
            @ row_to_tuple ign row post is_csv"
    using row_to_tuple_append [of ign row pre "[(out_key, src_key)] @ post" is_csv]
      row_to_tuple_append [of ign row "[(out_key, src_key)]" post is_csv]
    by simp
  with one have 1: "row_to_tuple ign row (pre @ (out_key, src_key) # post) is_csv
           = row_to_tuple ign row pre is_csv
             @ (out_key, if out_key = ''active'' then PBool False else PStr []) # row_to_tuple ign row post is_csv"
    by simp
  have 2: "row_to_tuple ign other [(out_key, src_key)] is_csv
                = row_to_tuple ign row [(out_key, src_key)] is_csv"
    if "out_key = ''active''
        \<and> (map_of other src_key = Some (PBool False) \<or> map_of other src_key = Some (PStr ''false''))"
    for other
  proof -
    from that have "dict_get other src_key (PStr []) = PBool False
        \<or> dict_get other src_key (PStr []) = PStr ''false''"
      by (auto simp: dict_get_def)
    then have "norm_bool (dict_get other src_key (PStr [])) = PBool False"
      by (auto simp: norm_bool_false) (simp add: norm_bool_def)
    with that assms(2) one show ?thesis by simp
  qed
  from 1 2 show ?thesis by blast
qed

theorem missing_key_default_witness:
  "map_of art_row ''active'' = None
   \<and> ''active'' \<notin> ({} :: string set)
   \<and> row_to_tuple {} art_row
         ([(''subject_name'', ''subject_name''), (''color'', ''color''), (''icon'', ''icon'')]
          @ (''active'', ''active'') # []) True
       = row_to_tuple {} art_row
           [(''subject_name'', ''subject_name''), (''color'', ''color''), (''icon'', ''icon'')] True
         @ (''active'', PBool False) # row_to_tuple {} art_row [] True
   \<and> row_to_tuple {} art_row_inactive [(''active'', ''active'')] True
       = row_to_tuple {} art_row [(''active'', ''active'')] True"
proof -
  have a: "map_of art_row ''active'' = None" by (simp add: art_row_def)
  have b: "''active'' \<notin> ({} :: string set)" by simp
  have f: "map_of art_row_inactive ''active'' = Some (PBool False)"
    by (simp add: art_row_inactive_def)
  note t = missing_key_default [OF a b, where is_csv = True and post = "[]"
      and pre = "[(''subject_name'', ''subject_name''), (''color'', ''color''), (''icon'', ''icon'')]"]
  from t have 1: "row_to_tuple {} art_row
         ([(''subject_name'', ''subject_name''), (''color'', ''color''), (''icon'', ''icon'')]
          @ (''active'', ''active'') # []) True
       = row_to_tuple {} art_row
           [(''subject_name'', ''subject_name''), (''color'', ''color''), (''icon'', ''icon'')] True
         @ (''active'', PBool False) # row_to_tuple {} art_row [] True"
    by simp
  from t f have 2: "row_to_tuple {} art_row_inactive [(''active'', ''active'')] True
       = row_to_tuple {} art_row [(''active'', ''active'')] True"
    by blast
  show ?thesis by (rule conjI a b 1 2)+
qed

text \<open>
  C10. An entry of the JSON-side list that is not a dict is skipped: it changes neither
  the JSON-derived set nor the result of \<^verbatim>\<open>compare_sets\<close>. The CSV side has no such
  guard: with such an entry among the CSV rows, building \<^verbatim>\<open>csv_set\<close> raises
  \<^verbatim>\<open>AttributeError\<close> and \<^verbatim>\<open>compare_sets\<close> appends nothing.
\<close>

theorem non_dict_entries:
  assumes "\<not> is_dict e"
  shows "gas_set ign field_map (us @ e # vs) = gas_set ign field_map (us @ vs)
       \<and> compare_sets list_diff name csv_rows (us @ e # vs) field_map ignore_fields report_lines
          = compare_sets list_diff name csv_rows (us @ vs) field_map ignore_fields report_lines
       \<and> csv_set ign field_map (xs @ e # ys) = Inl AttributeError
       \<and> compare_sets list_diff name (xs @ e # ys) gas_rows field_map ignore_fields report_lines
          = Inl AttributeError"
proof -
  have e: "gas_tuples ign field_map (e # vs) = gas_tuples ign field_map vs" for ign
    using assms by (auto split: pyval.splits)
  have gt: "gas_tuples ign field_map (us @ e # vs) = gas_tuples ign field_map (us @ vs)" for ign
    by (simp only: gas_tuples_append e)
  have g: "gas_set ign field_map (us @ e # vs) = gas_set ign field_map (us @ vs)" for ign
    by (simp only: gas_set_def gt)
  have "\<not> list_all is_dict (xs @ e # ys)" using assms by simp
  then have ct: "csv_tuples ign field_map (xs @ e # ys) = Inl AttributeError" for ign
    by (rule csv_tuples_raises)
  have c: "csv_set ign field_map (xs @ e # ys) = Inl AttributeError" for ign
    by (simp add: csv_set_def ct)
  have 1: "compare_sets list_diff name csv_rows (us @ e # vs) field_map ignore_fields report_lines
          = compare_sets list_diff name csv_rows (us @ vs) field_map ignore_fields report_lines"
    by (simp only: compare_sets_def gt)
  have 2: "compare_sets list_diff name (xs @ e # ys) gas_rows field_map ignore_fields report_lines
          = Inl AttributeError"
    by (simp add: compare_sets_def ct)
  show ?thesis by (rule conjI g 1 c 2)+
qed

theorem non_dict_entries_witness:
  "\<not> is_dict (PInt 3)
   \<and> gas_set {} subjects_field_map ([PDict math_json] @ PInt 3 # []) = gas_set {} subjects_field_map ([PDict math_json] @ [])
   \<and> compare_sets list_diff_ex ''Subjects'' [PDict math_csv] ([PDict math_json] @ PInt 3 # []) subjects_field_map None []
       = Inr [Header ''Subjects'', Counts 1 1, Match, Blank]
   \<and> compare_sets list_diff_ex ''Subjects'' ([PDict math_csv] @ PInt 3 # []) [PDict math_json] subjects_field_map None []
       = Inl AttributeError"
proof -
  have a: "\<not> is_dict (PInt 3)" by simp
  note t = non_dict_entries [OF a, where ign = "{}" and field_map = subjects_field_map
      and us = "[PDict math_json]" and vs = "[]" and xs = "[PDict math_csv]" and ys = "[]"
      and csv_rows = "[PDict math_csv]" and gas_rows = "[PDict math_json]"
      and list_diff = list_diff_ex and name = "''Subjects''" and ignore_fields = None
      and report_lines = "[]"]
  from t have 1: "gas_set {} subjects_field_map ([PDict math_json] @ PInt 3 # [])
      = gas_set {} subjects_field_map ([PDict math_json] @ [])"
    by (rule conjunct1)
  from t have "compare_sets list_diff_ex ''Subjects'' [PDict math_csv] ([PDict math_json] @ PInt 3 # []) subjects_field_map None []
       = compare_sets list_diff_ex ''Subjects'' [PDict math_csv] ([PDict math_json] @ []) subjects_field_map None []"
    by (elim conjE)
  then have 2: "compare_sets list_diff_ex ''Subjects'' [PDict math_csv] ([PDict math_json] @ PInt 3 # []) subjects_field_map None []
       = Inr [Header ''Subjects'', Counts 1 1, Match, Blank]"
    using subjects_match by simp
  from t have 3: "compare_sets list_diff_ex ''Subjects'' ([PDict math_csv] @ PInt 3 # []) [PDict math_json] subjects_field_map None []
       = Inl AttributeError"
    by (elim conjE)
  show ?thesis by (rule conjI a 1 2 3)+
qed

end
